theory Spec2Isabelle
  imports Main
begin

section \<open>JavaScript values, the object store and property access\<close>

text \<open>
  The dispatcher of \<^verbatim>\<open>numrs_glue.js\<close> reads its argument with two operations of the
  host language only: the member access \<^verbatim>\<open>e[0]\<close> and \<^verbatim>\<open>typeof\<close>. Both are modelled
  here for primitive values and for references to objects kept in a store. Numbers are
  opaque to the dispatcher (it never computes with them), hence the type parameter
  \<open>'n\<close>, which stands for the IEEE doubles of the host, NaN and the infinities included.
  Arrays and plain objects carry data properties only; symbols, functions, accessor
  properties and proxies are outside the model.
\<close>

type_synonym addr = nat

datatype 'n jsval =
    Undefined
  | Null
  | Bool bool
  | Num 'n
  | BigInt int
  | Str string
  | Ref addr

datatype 'n jsobj =
    ArrayObj "'n jsval list"
  | PlainObj "(string \<times> 'n jsval) list"

type_synonym 'n heap = "addr \<Rightarrow> 'n jsobj"

text \<open>What a call or an expression can throw: the runtime's own TypeError, or any
  value thrown by one of the external constructors.\<close>

datatype 'n thrown = TypeError | Thrown "'n jsval"

type_synonym 'n completion = "'n thrown + 'n jsval"

text \<open>\<^verbatim>\<open>typeof v\<close>: null and every object in the model answer \<^verbatim>\<open>'object'\<close>.\<close>

fun typeof :: "'n jsval \<Rightarrow> string" where
  "typeof Undefined = ''undefined''"
| "typeof Null = ''object''"
| "typeof (Bool b) = ''boolean''"
| "typeof (Num n) = ''number''"
| "typeof (BigInt i) = ''bigint''"
| "typeof (Str s) = ''string''"
| "typeof (Ref a) = ''object''"

text \<open>
  \<^verbatim>\<open>v[0]\<close> on a value: \<^verbatim>\<open>undefined\<close> and \<^verbatim>\<open>null\<close> have no properties, so the access
  throws a TypeError. Every other value answers: a boolean, a number or a bigint has
  no property \<^verbatim>\<open>0\<close> and yields \<^verbatim>\<open>undefined\<close>; a string yields its first character as a
  string, \<^verbatim>\<open>undefined\<close> when it is empty; an array yields its first element, \<^verbatim>\<open>undefined\<close>
  when it is empty; a plain object yields its property \<^verbatim>\<open>"0"\<close>, \<^verbatim>\<open>undefined\<close> when it
  has none.
\<close>

fun index0 :: "'n heap \<Rightarrow> 'n jsval \<Rightarrow> 'n completion" where
  "index0 h Undefined = Inl TypeError"
| "index0 h Null = Inl TypeError"
| "index0 h (Bool b) = Inr Undefined"
| "index0 h (Num n) = Inr Undefined"
| "index0 h (BigInt i) = Inr Undefined"
| "index0 h (Str s) = (case s of [] \<Rightarrow> Inr Undefined | c # _ \<Rightarrow> Inr (Str [c]))"
| "index0 h (Ref a) =
     (case h a of
        ArrayObj xs \<Rightarrow> (case xs of [] \<Rightarrow> Inr Undefined | x # _ \<Rightarrow> Inr x)
      | PlainObj ps \<Rightarrow> (case map_of ps ''0'' of None \<Rightarrow> Inr Undefined | Some x \<Rightarrow> Inr x))"

text \<open>\<^verbatim>\<open>e[0]\<close> on an expression \<open>e\<close> that may itself have thrown: the member access
  is evaluated left to right, so \<^verbatim>\<open>data[0][0]\<close> is \<open>member0 h (member0 h (Inr data))\<close>.\<close>

definition member0 :: "'n heap \<Rightarrow> 'n completion \<Rightarrow> 'n completion" where
  "member0 h e = (case e of Inl t \<Rightarrow> Inl t | Inr v \<Rightarrow> index0 h v)"

section \<open>The dispatcher\<close>

text \<open>
  The four constructors \<^verbatim>\<open>asarray1d\<close> .. \<^verbatim>\<open>asarray4d\<close> are free identifiers of the glue
  file, bound by the generated bindings it is spliced into. They are parameters of the
  model: each takes the argument and the store, and gives back a completion and the
  store it leaves behind.
\<close>

record 'n ctors =
  asarray1d :: "'n jsval \<Rightarrow> 'n heap \<Rightarrow> 'n completion \<times> 'n heap"
  asarray2d :: "'n jsval \<Rightarrow> 'n heap \<Rightarrow> 'n completion \<times> 'n heap"
  asarray3d :: "'n jsval \<Rightarrow> 'n heap \<Rightarrow> 'n completion \<times> 'n heap"
  asarray4d :: "'n jsval \<Rightarrow> 'n heap \<Rightarrow> 'n completion \<times> 'n heap"

text \<open>
  \<^verbatim>\<open>
  export function asarray(data) {
      if (typeof(data[0]) === 'number') {
          return asarray1d(data);
      } else if (typeof(data[0][0]) === 'number') {
          return asarray2d(data);
      } else if (typeof(data[0][0][0]) === 'number') {
          return asarray3d(data);
      } else if (typeof(data[0][0][0][0]) === 'number') {
          return asarray4d(data);
      }
  }
  \<close>
  Each condition evaluates its member chain afresh from \<^verbatim>\<open>data\<close>; a chain that throws
  ends the call with that exception; falling off the ladder returns \<^verbatim>\<open>undefined\<close>.
\<close>

definition asarray :: "'n ctors \<Rightarrow> 'n jsval \<Rightarrow> 'n heap \<Rightarrow> 'n completion \<times> 'n heap" where
  "asarray cs data h =
     (case member0 h (Inr data) of
        Inl t \<Rightarrow> (Inl t, h)
      | Inr v1 \<Rightarrow>
          if typeof v1 = ''number'' then asarray1d cs data h
          else
     (case member0 h (member0 h (Inr data)) of
        Inl t \<Rightarrow> (Inl t, h)
      | Inr v2 \<Rightarrow>
          if typeof v2 = ''number'' then asarray2d cs data h
          else
     (case member0 h (member0 h (member0 h (Inr data))) of
        Inl t \<Rightarrow> (Inl t, h)
      | Inr v3 \<Rightarrow>
          if typeof v3 = ''number'' then asarray3d cs data h
          else
     (case member0 h (member0 h (member0 h (member0 h (Inr data)))) of
        Inl t \<Rightarrow> (Inl t, h)
      | Inr v4 \<Rightarrow>
          if typeof v4 = ''number'' then asarray4d cs data h
          else (Inr Undefined, h)))))"

section \<open>Notions used to state the properties\<close>

text \<open>The four ranks the dispatcher knows, the level of the leftmost chain each stands
  for, and the constructor of each.\<close>

datatype rank = Rank1 | Rank2 | Rank3 | Rank4

fun level :: "rank \<Rightarrow> nat" where
  "level Rank1 = 1"
| "level Rank2 = 2"
| "level Rank3 = 3"
| "level Rank4 = 4"

fun ctor :: "rank \<Rightarrow> 'n ctors \<Rightarrow> 'n jsval \<Rightarrow> 'n heap \<Rightarrow> 'n completion \<times> 'n heap" where
  "ctor Rank1 cs = asarray1d cs"
| "ctor Rank2 cs = asarray2d cs"
| "ctor Rank3 cs = asarray3d cs"
| "ctor Rank4 cs = asarray4d cs"

text \<open>The probe of level \<open>k\<close>: \<^verbatim>\<open>data\<close> followed by \<open>k\<close> member accesses \<^verbatim>\<open>[0]\<close>.\<close>

definition probe :: "'n heap \<Rightarrow> 'n jsval \<Rightarrow> nat \<Rightarrow> 'n completion" where
  "probe h data k = (member0 h ^^ k) (Inr data)"

text \<open>Level \<open>k\<close> of the leftmost chain is a primitive number: the probe answers, and
  \<^verbatim>\<open>typeof\<close> of the answer is \<^verbatim>\<open>'number'\<close>.\<close>

definition number_at :: "'n heap \<Rightarrow> 'n jsval \<Rightarrow> nat \<Rightarrow> bool" where
  "number_at h data k =
     (case probe h data k of Inl t \<Rightarrow> False | Inr v \<Rightarrow> typeof v = ''number'')"

text \<open>A nested sequence of numbers with \<open>k\<close> levels: a number for \<open>k = 0\<close>, otherwise
  an array all of whose elements are nested sequences with \<open>k - 1\<close> levels.\<close>

fun nested :: "'n heap \<Rightarrow> nat \<Rightarrow> 'n jsval \<Rightarrow> bool" where
  "nested h 0 v = (typeof v = ''number'')"
| "nested h (Suc k) v =
     (case v of
        Ref a \<Rightarrow>
          (case h a of
             ArrayObj xs \<Rightarrow> list_all (nested h k) xs
           | PlainObj ps \<Rightarrow> False)
      | _ \<Rightarrow> False)"

text \<open>Non-empty at each of the first \<open>k\<close> probed levels: the value is a non-empty array,
  and so is its first element, and so on \<open>k\<close> times. Siblings are not looked at.\<close>

fun probed_nonempty :: "'n heap \<Rightarrow> nat \<Rightarrow> 'n jsval \<Rightarrow> bool" where
  "probed_nonempty h 0 v = True"
| "probed_nonempty h (Suc k) v =
     (case v of
        Ref a \<Rightarrow>
          (case h a of
             ArrayObj xs \<Rightarrow> (case xs of [] \<Rightarrow> False | x # _ \<Rightarrow> probed_nonempty h k x)
           | PlainObj ps \<Rightarrow> False)
      | _ \<Rightarrow> False)"

text \<open>A store given by the list of its first objects; every other address holds an
  empty plain object.\<close>

definition heap_of :: "'n jsobj list \<Rightarrow> 'n heap" where
  "heap_of objs a = (if a < length objs then objs ! a else PlainObj [])"

text \<open>Constructors that do nothing but name themselves: each returns its own name and
  leaves the store alone. Running the dispatcher with them shows which one it calls.\<close>

definition naming_ctors :: "'n ctors" where
  "naming_ctors =
     \<lparr> asarray1d = (\<lambda>d h. (Inr (Str ''asarray1d''), h)),
       asarray2d = (\<lambda>d h. (Inr (Str ''asarray2d''), h)),
       asarray3d = (\<lambda>d h. (Inr (Str ''asarray3d''), h)),
       asarray4d = (\<lambda>d h. (Inr (Str ''asarray4d''), h)) \<rparr>"

definition selected_rank :: "'n jsval \<Rightarrow> 'n heap \<Rightarrow> rank option" where
  "selected_rank data h =
     (case fst (asarray naming_ctors data h) of
        Inr (Str s) \<Rightarrow>
          (if s = ''asarray1d'' then Some Rank1
           else if s = ''asarray2d'' then Some Rank2
           else if s = ''asarray3d'' then Some Rank3
           else if s = ''asarray4d'' then Some Rank4
           else None)
      | _ \<Rightarrow> None)"

text \<open>What the dispatcher itself can do with a call: end it with the runtime's TypeError,
  return \<^verbatim>\<open>undefined\<close>, or hand over to the constructor of some rank. \<open>perform\<close> runs
  such an action on an argument and a store: the first two leave the store as it is,
  the third is the constructor's call on exactly that argument and that store.\<close>

datatype action = Throw_TypeError | Return_undefined | Call rank

definition perform :: "action \<Rightarrow> 'n ctors \<Rightarrow> 'n jsval \<Rightarrow> 'n heap \<Rightarrow> 'n completion \<times> 'n heap" where
  "perform act cs data h =
     (case act of
        Throw_TypeError \<Rightarrow> (Inl TypeError, h)
      | Return_undefined \<Rightarrow> (Inr Undefined, h)
      | Call r \<Rightarrow> ctor r cs data h)"

section \<open>Example stores\<close>

text \<open>\<open>Ref 0\<close> is \<^verbatim>\<open>[1, 2, 3]\<close>.\<close>

definition store_flat :: "int heap" where
  "store_flat = heap_of [ArrayObj [Num 1, Num 2, Num 3]]"

text \<open>\<open>Ref 0\<close> is \<^verbatim>\<open>[[1, 2], [3, 4]]\<close>, \<open>Ref 1\<close> is \<^verbatim>\<open>[1, 2]\<close> and \<open>Ref 2\<close> is \<^verbatim>\<open>[3, 4]\<close>.\<close>

definition store_2x2 :: "int heap" where
  "store_2x2 =
     heap_of [ArrayObj [Ref 1, Ref 2], ArrayObj [Num 1, Num 2], ArrayObj [Num 3, Num 4]]"

text \<open>\<open>Ref 0\<close> is \<^verbatim>\<open>[[[[[1]]]]]\<close>, \<open>Ref 1\<close> is \<^verbatim>\<open>[[[[1]]]]\<close>, \<open>Ref 2\<close> is \<^verbatim>\<open>[[[1]]]\<close>,
  \<open>Ref 5\<close> is \<^verbatim>\<open>[[1]]\<close> and \<open>Ref 6\<close> is \<^verbatim>\<open>[1]\<close>; \<open>Ref 3\<close> is \<^verbatim>\<open>[[7, 8], "x"]\<close>, whose first
  element \<open>Ref 4\<close> is \<^verbatim>\<open>[7, 8]\<close>.\<close>

definition store_deep :: "int heap" where
  "store_deep =
     heap_of [ArrayObj [Ref 1], ArrayObj [Ref 2], ArrayObj [Ref 5],
       ArrayObj [Ref 4, Str ''x''], ArrayObj [Num 7, Num 8],
       ArrayObj [Ref 6], ArrayObj [Num 1]]"

text \<open>\<open>Ref 0\<close> is \<^verbatim>\<open>[]\<close>, \<open>Ref 1\<close> is \<^verbatim>\<open>["a"]\<close> and \<open>Ref 2\<close> is \<^verbatim>\<open>[1]\<close>.\<close>

definition store_odd :: "int heap" where
  "store_odd = heap_of [ArrayObj [], ArrayObj [Str ''a''], ArrayObj [Num 1]]"

section \<open>Basic facts about the probes\<close>

lemma member0_Inl [simp]: "member0 h (Inl t) = Inl t"
  by (simp add: member0_def)

lemma member0_Inr [simp]: "member0 h (Inr v) = index0 h v"
  by (simp add: member0_def)

lemma probe_0: "probe h data 0 = Inr data"
  by (simp add: probe_def)

lemma probe_Suc: "probe h data (Suc k) = member0 h (probe h data k)"
  by (simp add: probe_def)

lemma probe_Inl_mono: "probe h data j = Inl t \<Longrightarrow> j \<le> k \<Longrightarrow> probe h data k = Inl t"
  by (induction k) (auto simp: le_Suc_eq probe_Suc)

lemma probe_1: "probe h data 1 = member0 h (Inr data)"
  by (simp add: probe_def)

lemma probe_2: "probe h data 2 = member0 h (member0 h (Inr data))"
  by (simp add: probe_def numeral_2_eq_2)

lemma probe_3: "probe h data 3 = member0 h (member0 h (member0 h (Inr data)))"
  by (simp add: probe_def numeral_3_eq_3)

lemma probe_4: "probe h data 4 = member0 h (member0 h (member0 h (member0 h (Inr data))))"
  by (simp add: probe_def eval_nat_numeral)

lemma asarray_probe:
  "asarray cs data h =
     (case probe h data 1 of
        Inl t \<Rightarrow> (Inl t, h)
      | Inr v1 \<Rightarrow>
          if typeof v1 = ''number'' then asarray1d cs data h
          else
     (case probe h data 2 of
        Inl t \<Rightarrow> (Inl t, h)
      | Inr v2 \<Rightarrow>
          if typeof v2 = ''number'' then asarray2d cs data h
          else
     (case probe h data 3 of
        Inl t \<Rightarrow> (Inl t, h)
      | Inr v3 \<Rightarrow>
          if typeof v3 = ''number'' then asarray3d cs data h
          else
     (case probe h data 4 of
        Inl t \<Rightarrow> (Inl t, h)
      | Inr v4 \<Rightarrow>
          if typeof v4 = ''number'' then asarray4d cs data h
          else (Inr Undefined, h)))))"
  unfolding probe_1 probe_2 probe_3 probe_4 by (rule asarray_def)

lemma index0_throws: "index0 h v = Inl t \<Longrightarrow> t = TypeError"
  by (cases v) (auto split: list.splits jsobj.splits option.splits)

lemma probe_throws: "probe h data k = Inl t \<Longrightarrow> t = TypeError"
  by (induction k) (auto simp: probe_0 probe_Suc member0_def index0_throws split: sum.splits)

lemma number_at_iff: "number_at h data k \<longleftrightarrow> (\<exists>v. probe h data k = Inr v \<and> typeof v = ''number'')"
  by (auto simp: number_at_def split: sum.splits)

lemma not_number_at_below:
  assumes "probe h data k = Inr v" and "j \<le> k" and "\<not> number_at h data j"
  shows "\<exists>w. probe h data j = Inr w \<and> typeof w \<noteq> ''number''"
proof (cases "probe h data j")
  case (Inl t)
  from Inl assms(2) have "probe h data k = Inl t" by (rule probe_Inl_mono)
  with assms(1) show ?thesis by simp
next
  case (Inr w)
  with assms(3) show ?thesis by (simp add: number_at_def)
qed

lemma asarray_level1:
  assumes "number_at h data 1"
  shows "asarray cs data h = asarray1d cs data h"
  using assms by (auto simp: number_at_iff asarray_probe)

lemma asarray_level2:
  assumes "number_at h data 2" and "\<not> number_at h data 1"
  shows "asarray cs data h = asarray2d cs data h"
proof -
  from assms(1) obtain v where v: "probe h data 2 = Inr v" "typeof v = ''number''"
    by (auto simp: number_at_iff)
  from not_number_at_below [OF v(1) _ assms(2)]
  obtain w1 where "probe h data 1 = Inr w1" "typeof w1 \<noteq> ''number''" by auto
  with v show ?thesis by (simp add: asarray_probe)
qed

lemma asarray_level3:
  assumes "number_at h data 3" and "\<not> number_at h data 1" and "\<not> number_at h data 2"
  shows "asarray cs data h = asarray3d cs data h"
proof -
  from assms(1) obtain v where v: "probe h data 3 = Inr v" "typeof v = ''number''"
    by (auto simp: number_at_iff)
  from not_number_at_below [OF v(1) _ assms(2)]
  obtain w1 where w1: "probe h data 1 = Inr w1" "typeof w1 \<noteq> ''number''" by auto
  from not_number_at_below [OF v(1) _ assms(3)]
  obtain w2 where w2: "probe h data 2 = Inr w2" "typeof w2 \<noteq> ''number''" by auto
  from v w1 w2 show ?thesis by (simp add: asarray_probe)
qed

lemma asarray_level4:
  assumes "number_at h data 4" and "\<not> number_at h data 1" and "\<not> number_at h data 2"
    and "\<not> number_at h data 3"
  shows "asarray cs data h = asarray4d cs data h"
proof -
  from assms(1) obtain v where v: "probe h data 4 = Inr v" "typeof v = ''number''"
    by (auto simp: number_at_iff)
  from not_number_at_below [OF v(1) _ assms(2)]
  obtain w1 where w1: "probe h data 1 = Inr w1" "typeof w1 \<noteq> ''number''" by auto
  from not_number_at_below [OF v(1) _ assms(3)]
  obtain w2 where w2: "probe h data 2 = Inr w2" "typeof w2 \<noteq> ''number''" by auto
  from not_number_at_below [OF v(1) _ assms(4)]
  obtain w3 where w3: "probe h data 3 = Inr w3" "typeof w3 \<noteq> ''number''" by auto
  from v w1 w2 w3 show ?thesis by (simp add: asarray_probe)
qed

lemma asarray_no_level:
  assumes "\<not> number_at h data 1" and "\<not> number_at h data 2"
    and "\<not> number_at h data 3" and "\<not> number_at h data 4"
  shows "asarray cs data h = (Inl TypeError, h) \<or> asarray cs data h = (Inr Undefined, h)"
  using assms
  by (auto simp: number_at_def asarray_probe split: sum.splits dest: probe_throws)

lemma member0_funpow_Inl: "(member0 h ^^ k) (Inl t) = Inl t"
  by (induction k) simp_all

lemma probe_Suc_front:
  "probe h data (Suc k) = (case index0 h data of Inl t \<Rightarrow> Inl t | Inr w \<Rightarrow> probe h w k)"
  by (simp add: probe_def funpow_swap1 member0_funpow_Inl split: sum.splits)

lemma nested_Suc_typeof: "nested h (Suc k) v \<Longrightarrow> typeof v = ''object''"
  by (cases v) auto

lemma probed_nonempty_Suc:
  "probed_nonempty h (Suc j) v \<Longrightarrow> nested h (Suc k) v \<Longrightarrow>
     \<exists>w. index0 h v = Inr w \<and> probed_nonempty h j w \<and> nested h k w"
  by (cases v) (auto split: jsobj.splits list.splits)

lemma nested_probe:
  "nested h k data \<Longrightarrow> probed_nonempty h j data \<Longrightarrow> j \<le> k \<Longrightarrow>
     \<exists>w. probe h data j = Inr w \<and> nested h (k - j) w"
proof (induction j arbitrary: k data)
  case 0
  then show ?case by (simp add: probe_0)
next
  case (Suc j)
  from Suc.prems(3) obtain k' where k: "k = Suc k'" by (cases k) auto
  from Suc.prems(1) k have "nested h (Suc k') data" by simp
  with Suc.prems(2) obtain w
    where w: "index0 h data = Inr w" "probed_nonempty h j w" "nested h k' w"
    using probed_nonempty_Suc by blast
  from Suc.prems(3) k have "j \<le> k'" by simp
  from Suc.IH [OF w(3) w(2) this] w(1) k show ?case
    by (simp add: probe_Suc_front)
qed

lemma probed_nonempty_mono:
  "probed_nonempty h k v \<Longrightarrow> j \<le> k \<Longrightarrow> probed_nonempty h j v"
proof (induction j arbitrary: k v)
  case 0
  then show ?case by simp
next
  case (Suc j)
  from Suc.prems(2) obtain k' where k: "k = Suc k'" and jk: "j \<le> k'" by (cases k) auto
  from Suc.prems(1) k Suc.IH [OF _ jk] show ?case
    by (cases v) (auto split: jsobj.splits list.splits)
qed

lemma nested_number_at:
  "nested h k data \<Longrightarrow> probed_nonempty h k data \<Longrightarrow> number_at h data k"
  using nested_probe [of h k data k] by (auto simp: number_at_def)

lemma nested_not_number_at:
  assumes "nested h k data" and "probed_nonempty h j data" and "j < k"
  shows "\<not> number_at h data j"
proof -
  from assms obtain w where w: "probe h data j = Inr w" "nested h (k - j) w"
    using nested_probe [of h k data j] by auto
  from assms(3) have "k - j = Suc (k - Suc j)" by simp
  with w(2) have "typeof w = ''object''" using nested_Suc_typeof [of h "k - Suc j" w] by simp
  with w(1) show ?thesis by (simp add: number_at_def)
qed

lemma selected_rank_cases:
  "selected_rank data h =
     (if number_at h data 1 then Some Rank1
      else if number_at h data 2 then Some Rank2
      else if number_at h data 3 then Some Rank3
      else if number_at h data 4 then Some Rank4
      else None)"
proof -
  have n1: "asarray1d naming_ctors data h = (Inr (Str ''asarray1d''), h)"
    and n2: "asarray2d naming_ctors data h = (Inr (Str ''asarray2d''), h)"
    and n3: "asarray3d naming_ctors data h = (Inr (Str ''asarray3d''), h)"
    and n4: "asarray4d naming_ctors data h = (Inr (Str ''asarray4d''), h)"
    by (simp_all add: naming_ctors_def)
  consider "number_at h data 1"
    | "\<not> number_at h data 1" "number_at h data 2"
    | "\<not> number_at h data 1" "\<not> number_at h data 2" "number_at h data 3"
    | "\<not> number_at h data 1" "\<not> number_at h data 2" "\<not> number_at h data 3" "number_at h data 4"
    | "\<not> number_at h data 1" "\<not> number_at h data 2" "\<not> number_at h data 3" "\<not> number_at h data 4"
    by blast
  then show ?thesis
  proof cases
    case 1
    then show ?thesis by (simp add: selected_rank_def asarray_level1 n1)
  next
    case 2
    then show ?thesis by (simp add: selected_rank_def asarray_level2 n2)
  next
    case 3
    then show ?thesis by (simp add: selected_rank_def asarray_level3 n3)
  next
    case 4
    then show ?thesis by (simp add: selected_rank_def asarray_level4 n4)
  next
    case 5
    from asarray_no_level [OF 5, of naming_ctors] 5 show ?thesis
      by (auto simp: selected_rank_def)
  qed
qed

lemma selected_rank_Some:
  assumes "selected_rank data h = Some r"
  shows "asarray cs data h = ctor r cs data h"
  using assms
  by (auto simp: selected_rank_cases asarray_level1 asarray_level2 asarray_level3
      asarray_level4 split: if_splits)

lemma selected_rank_None:
  assumes "selected_rank data h = None"
  shows "asarray cs data h = (Inl TypeError, h) \<or> asarray cs data h = (Inr Undefined, h)"
proof -
  from assms have "\<not> number_at h data 1" and "\<not> number_at h data 2"
    and "\<not> number_at h data 3" and "\<not> number_at h data 4"
    by (simp_all add: selected_rank_cases split: if_splits)
  then show ?thesis by (rule asarray_no_level)
qed

section \<open>Rank 1\<close>

text \<open>
  Claim C1. For every flat sequence of numbers \<open>S\<close> of length at least 1 (an array in the
  store all of whose elements are primitive numbers), \<^verbatim>\<open>asarray(S)\<close> is the call
  \<^verbatim>\<open>asarray1d(S)\<close>: the rank-1 constructor receives the same argument and the same
  store, and its completion and the store it leaves are what the dispatcher returns,
  whatever the four constructors do.
\<close>

theorem asarray_flat_dispatches_1d:
  assumes "h a = ArrayObj S" and "S \<noteq> []" and "list_all (\<lambda>x. typeof x = ''number'') S"
  shows "asarray cs (Ref a) h = asarray1d cs (Ref a) h"
proof -
  from assms obtain x xs where S: "S = x # xs" and x: "typeof x = ''number''"
    by (cases S) auto
  from assms(1) S have "index0 h (Ref a) = Inr x"
    by simp
  with x show ?thesis
    by (simp add: asarray_def)
qed

theorem asarray_flat_dispatches_1d_witness:
  "store_flat 0 = ArrayObj [Num 1, Num 2, Num 3]
   \<and> [Num 1, Num 2, Num (3::int)] \<noteq> []
   \<and> list_all (\<lambda>x. typeof x = ''number'') [Num 1, Num 2, Num (3::int)]
   \<and> asarray naming_ctors (Ref 0) store_flat = (Inr (Str ''asarray1d''), store_flat)"
proof -
  have e: "store_flat 0 = ArrayObj [Num 1, Num 2, Num 3]"
    by (simp add: store_flat_def heap_of_def)
  from asarray_flat_dispatches_1d [of store_flat 0 "[Num 1, Num 2, Num 3]" naming_ctors] e
  show ?thesis by (simp add: naming_ctors_def)
qed

section \<open>The contract of the dispatcher\<close>

text \<open>
  Claim C3. The dispatcher probes \<^verbatim>\<open>data[0]\<close>, \<^verbatim>\<open>data[0][0]\<close>, \<^verbatim>\<open>data[0][0][0]\<close> and
  \<^verbatim>\<open>data[0][0][0][0]\<close> in this order and selects the first level that is a primitive
  number: when level \<open>r\<close> in 1..4 is a number and no level from 1 below \<open>r\<close> is one,
  the call is the call of the constructor of rank \<open>r\<close> on \<^verbatim>\<open>data\<close> in the same store,
  and what that constructor returns (or throws) is returned (or thrown) unchanged.
\<close>

theorem asarray_first_number_level:
  assumes "number_at h data (level r)"
    and "\<forall>j. 1 \<le> j \<and> j < level r \<longrightarrow> \<not> number_at h data j"
  shows "asarray cs data h = ctor r cs data h"
proof (cases r)
  case Rank1
  with assms(1) show ?thesis by (simp add: asarray_level1)
next
  case Rank2
  with assms show ?thesis by (simp add: asarray_level2)
next
  case Rank3
  with assms show ?thesis by (simp add: asarray_level3)
next
  case Rank4
  with assms show ?thesis by (simp add: asarray_level4)
qed

theorem asarray_first_number_level_witness:
  "number_at store_2x2 (Ref 0) (level Rank2)
   \<and> \<not> number_at store_2x2 (Ref 0) 1
   \<and> asarray naming_ctors (Ref 0) store_2x2 = (Inr (Str ''asarray2d''), store_2x2)"
proof -
  have n2: "number_at store_2x2 (Ref 0) (level Rank2)"
    by (simp add: number_at_def probe_2 store_2x2_def heap_of_def)
  have n1: "\<not> number_at store_2x2 (Ref 0) 1"
    by (simp add: number_at_def probe_Suc probe_0 store_2x2_def heap_of_def)
  have below: "\<forall>j. 1 \<le> j \<and> j < level Rank2 \<longrightarrow> \<not> number_at store_2x2 (Ref 0) j"
  proof (intro allI impI)
    fix j :: nat
    assume "1 \<le> j \<and> j < level Rank2"
    then have "j = 1" by simp
    with n1 show "\<not> number_at store_2x2 (Ref 0) j" by simp
  qed
  from asarray_first_number_level [OF n2 below, of naming_ctors] n1 n2
  show ?thesis by (simp add: naming_ctors_def)
qed

section \<open>Ranks 2, 3 and 4\<close>

text \<open>
  Claim C2. For every well-formed 2-level nested sequence of numbers (non-empty at each
  level), \<^verbatim>\<open>asarray(data)\<close> is the call \<^verbatim>\<open>asarray2d(data)\<close> on the same argument and
  store; in the same way every well-formed 3-level nested sequence goes to
  \<^verbatim>\<open>asarray3d\<close> and every well-formed 4-level nested sequence to \<^verbatim>\<open>asarray4d\<close>.
\<close>

theorem asarray_nested_dispatches:
  "(nested h 2 data \<and> probed_nonempty h 2 data \<longrightarrow> asarray cs data h = asarray2d cs data h)
   \<and> (nested h 3 data \<and> probed_nonempty h 3 data \<longrightarrow> asarray cs data h = asarray3d cs data h)
   \<and> (nested h 4 data \<and> probed_nonempty h 4 data \<longrightarrow> asarray cs data h = asarray4d cs data h)"
proof (intro conjI impI)
  assume "nested h 2 data \<and> probed_nonempty h 2 data"
  then have n: "nested h 2 data" and p: "probed_nonempty h 2 data" by simp_all
  have below: "\<not> number_at h data j" if "j < 2" for j
    using n probed_nonempty_mono [OF p] that by (intro nested_not_number_at) simp_all
  show "asarray cs data h = asarray2d cs data h"
    by (rule asarray_level2) (simp_all add: nested_number_at [OF n p] below)
next
  assume "nested h 3 data \<and> probed_nonempty h 3 data"
  then have n: "nested h 3 data" and p: "probed_nonempty h 3 data" by simp_all
  have below: "\<not> number_at h data j" if "j < 3" for j
    using n probed_nonempty_mono [OF p] that by (intro nested_not_number_at) simp_all
  show "asarray cs data h = asarray3d cs data h"
    by (rule asarray_level3) (simp_all add: nested_number_at [OF n p] below)
next
  assume "nested h 4 data \<and> probed_nonempty h 4 data"
  then have n: "nested h 4 data" and p: "probed_nonempty h 4 data" by simp_all
  have below: "\<not> number_at h data j" if "j < 4" for j
    using n probed_nonempty_mono [OF p] that by (intro nested_not_number_at) simp_all
  show "asarray cs data h = asarray4d cs data h"
    by (rule asarray_level4) (simp_all add: nested_number_at [OF n p] below)
qed

theorem asarray_nested_dispatches_witness:
  "nested store_2x2 2 (Ref 0) \<and> probed_nonempty store_2x2 2 (Ref 0)
   \<and> asarray naming_ctors (Ref 0) store_2x2 = (Inr (Str ''asarray2d''), store_2x2)
   \<and> nested store_deep 3 (Ref 2) \<and> probed_nonempty store_deep 3 (Ref 2)
   \<and> asarray naming_ctors (Ref 2) store_deep = (Inr (Str ''asarray3d''), store_deep)
   \<and> nested store_deep 4 (Ref 1) \<and> probed_nonempty store_deep 4 (Ref 1)
   \<and> asarray naming_ctors (Ref 1) store_deep = (Inr (Str ''asarray4d''), store_deep)"
proof -
  have a: "nested store_2x2 2 (Ref 0) \<and> probed_nonempty store_2x2 2 (Ref 0)"
    by (simp add: eval_nat_numeral store_2x2_def heap_of_def)
  have b: "nested store_deep 3 (Ref 2) \<and> probed_nonempty store_deep 3 (Ref 2)"
    by (simp add: eval_nat_numeral store_deep_def heap_of_def)
  have c: "nested store_deep 4 (Ref 1) \<and> probed_nonempty store_deep 4 (Ref 1)"
    by (simp add: eval_nat_numeral store_deep_def heap_of_def)
  from a b c
    asarray_nested_dispatches [of store_2x2 "Ref 0" naming_ctors]
    asarray_nested_dispatches [of store_deep "Ref 2" naming_ctors]
    asarray_nested_dispatches [of store_deep "Ref 1" naming_ctors]
  show ?thesis by (simp add: naming_ctors_def)
qed

section \<open>Dependence on the leftmost chain only\<close>

text \<open>
  Claim C4. The rank the dispatcher selects depends only on the shape reached by
  indexing element 0 again and again: two inputs (each with its store) whose leftmost
  chains have a primitive number at the same levels among 1..4 make the dispatcher call
  the constructor of the same rank, or none for both. Neither the numbers themselves
  nor any element beyond index 0 enters the hypothesis. Inputs whose chains agree at
  every level agree at these four in particular. The selected rank is read off a run
  with the self-naming constructors; the statement adds what it means for arbitrary
  ones: when it is \<open>r\<close>, both calls are calls of the constructor of rank \<open>r\<close>, and
  when there is none, both calls end without any constructor.
\<close>

theorem selected_rank_depends_on_shape:
  fixes h1 h2 :: "'n heap"
  assumes "\<forall>k \<in> {1, 2, 3, 4}. number_at h1 d1 k = number_at h2 d2 k"
  shows "selected_rank d1 h1 = selected_rank d2 h2
    \<and> (\<forall>r. selected_rank d1 h1 = Some r \<longrightarrow>
          (\<forall>cs. asarray cs d1 h1 = ctor r cs d1 h1) \<and> (\<forall>cs. asarray cs d2 h2 = ctor r cs d2 h2))
    \<and> (selected_rank d1 h1 = None \<longrightarrow>
          (\<forall>cs. asarray cs d1 h1 \<in> {(Inl TypeError, h1), (Inr Undefined, h1)})
          \<and> (\<forall>cs. asarray cs d2 h2 \<in> {(Inl TypeError, h2), (Inr Undefined, h2)}))"
proof -
  from assms have same: "selected_rank d1 h1 = selected_rank d2 h2"
    by (simp add: selected_rank_cases)
  have some: "asarray cs d h = ctor r cs d h" if "selected_rank d h = Some r"
    for cs :: "'n ctors" and d h r
    using selected_rank_Some [OF that] by simp
  have none: "asarray cs d h \<in> {(Inl TypeError, h), (Inr Undefined, h)}"
    if "selected_rank d h = None" for cs :: "'n ctors" and d h
    using selected_rank_None [OF that] by auto
  from same some none show ?thesis by metis
qed

theorem selected_rank_depends_on_shape_witness:
  "number_at store_2x2 (Ref 0) 1 = number_at store_deep (Ref 3) 1
   \<and> number_at store_2x2 (Ref 0) 2 = number_at store_deep (Ref 3) 2
   \<and> number_at store_2x2 (Ref 0) 3 = number_at store_deep (Ref 3) 3
   \<and> number_at store_2x2 (Ref 0) 4 = number_at store_deep (Ref 3) 4
   \<and> selected_rank (Ref 0) store_2x2 = Some Rank2
   \<and> selected_rank (Ref 3) store_deep = Some Rank2
   \<and> asarray naming_ctors (Ref 0) store_2x2 = (Inr (Str ''asarray2d''), store_2x2)
   \<and> asarray naming_ctors (Ref 3) store_deep = (Inr (Str ''asarray2d''), store_deep)"
proof -
  have l1: "number_at store_2x2 (Ref 0) 1 = number_at store_deep (Ref 3) 1"
    by (simp add: number_at_def probe_Suc probe_0 store_2x2_def store_deep_def heap_of_def)
  have l2: "number_at store_2x2 (Ref 0) 2 = number_at store_deep (Ref 3) 2"
    by (simp add: number_at_def probe_2 store_2x2_def store_deep_def heap_of_def)
  have l3: "number_at store_2x2 (Ref 0) 3 = number_at store_deep (Ref 3) 3"
    by (simp add: number_at_def probe_3 store_2x2_def store_deep_def heap_of_def)
  have l4: "number_at store_2x2 (Ref 0) 4 = number_at store_deep (Ref 3) 4"
    by (simp add: number_at_def probe_4 store_2x2_def store_deep_def heap_of_def)
  have s: "selected_rank (Ref 0) store_2x2 = Some Rank2"
    by (simp add: selected_rank_def asarray_def naming_ctors_def store_2x2_def heap_of_def)
  from l1 l2 l3 l4
  have "\<forall>k \<in> {1, 2, 3, 4}. number_at store_2x2 (Ref 0) k = number_at store_deep (Ref 3) k"
    by simp
  from selected_rank_depends_on_shape [OF this] s l1 l2 l3 l4
  show ?thesis by (simp add: naming_ctors_def)
qed

section \<open>Inputs that reach no constructor\<close>

text \<open>
  Claim C5. \<^verbatim>\<open>asarray([])\<close> raises an error from indexing and calls no constructor:
  for an empty array the call ends with the runtime's TypeError and the store as it
  was, whatever the four constructors are.
\<close>

theorem asarray_empty_throws:
  assumes "h a = ArrayObj []"
  shows "asarray cs (Ref a) h = (Inl TypeError, h)"
  using assms by (simp add: asarray_def)

theorem asarray_empty_throws_witness:
  "store_odd 0 = ArrayObj []
   \<and> asarray naming_ctors (Ref 0) store_odd = (Inl TypeError, store_odd)"
proof -
  have e: "store_odd 0 = ArrayObj []"
    by (simp add: store_odd_def heap_of_def)
  from asarray_empty_throws [of store_odd 0 naming_ctors] e show ?thesis by simp
qed

text \<open>
  Claim C6. An input nested five levels or more before a primitive number is reached
  (non-empty at the four probed levels), such as \<^verbatim>\<open>[[[[[1]]]]]\<close>, matches no branch:
  the dispatcher calls no constructor, raises nothing and returns \<^verbatim>\<open>undefined\<close>,
  leaving the store as it was.
\<close>

theorem asarray_deep_falls_through:
  assumes "5 \<le> k" and "nested h k data" and "probed_nonempty h 4 data"
  shows "asarray cs data h = (Inr Undefined, h)"
proof -
  have obj: "\<exists>w. probe h data j = Inr w \<and> typeof w = ''object''" if "j \<le> 4" for j
  proof -
    from that assms(1) have jk: "j \<le> k" and s: "k - j = Suc (k - Suc j)" by simp_all
    from assms(3) that have "probed_nonempty h j data" by (rule probed_nonempty_mono)
    from nested_probe [OF assms(2) this jk] obtain w
      where w: "probe h data j = Inr w" "nested h (k - j) w" by auto
    from w(2) s have "typeof w = ''object''" using nested_Suc_typeof [of h "k - Suc j" w] by simp
    with w(1) show ?thesis by blast
  qed
  from obj [of 1] obtain w1 where w1: "probe h data 1 = Inr w1" "typeof w1 = ''object''" by auto
  from obj [of 2] obtain w2 where w2: "probe h data 2 = Inr w2" "typeof w2 = ''object''" by auto
  from obj [of 3] obtain w3 where w3: "probe h data 3 = Inr w3" "typeof w3 = ''object''" by auto
  from obj [of 4] obtain w4 where w4: "probe h data 4 = Inr w4" "typeof w4 = ''object''" by auto
  from w1 w2 w3 w4 show ?thesis by (simp add: asarray_probe)
qed

theorem asarray_deep_falls_through_witness:
  "(5::nat) \<le> 5 \<and> nested store_deep 5 (Ref 0) \<and> probed_nonempty store_deep 4 (Ref 0)
   \<and> asarray naming_ctors (Ref 0) store_deep = (Inr Undefined, store_deep)"
proof -
  have k: "(5::nat) \<le> 5" by simp
  have n: "nested store_deep 5 (Ref 0)"
    by (simp add: eval_nat_numeral store_deep_def heap_of_def)
  have p: "probed_nonempty store_deep 4 (Ref 0)"
    by (simp add: eval_nat_numeral store_deep_def heap_of_def)
  from asarray_deep_falls_through [OF k n p, of naming_ctors] n p show ?thesis by simp
qed

text \<open>
  Claim C9. There are inputs that are not nested sequences of numbers of any rank on
  which the dispatcher calls no constructor, raises no error and returns
  \<^verbatim>\<open>undefined\<close>: every array whose first element is a non-empty string, such as
  \<^verbatim>\<open>["a"]\<close>. The first probe yields the string, every further probe its first character
  as a string, all four \<^verbatim>\<open>typeof\<close> tests fail without throwing, and the call falls off
  the ladder.
\<close>

theorem asarray_string_chain_returns_undefined:
  assumes "h a = ArrayObj (Str (c # s) # rest)"
  shows "asarray cs (Ref a) h = (Inr Undefined, h)
    \<and> probe h (Ref a) 1 = Inr (Str (c # s))
    \<and> (\<forall>k. 2 \<le> k \<longrightarrow> probe h (Ref a) k = Inr (Str [c]))
    \<and> (\<forall>k. \<not> nested h k (Ref a))"
proof (intro conjI allI impI)
  from assms show "asarray cs (Ref a) h = (Inr Undefined, h)"
    by (simp add: asarray_def)
next
  from assms show "probe h (Ref a) 1 = Inr (Str (c # s))"
    by (simp add: probe_Suc probe_0)
next
  fix k :: nat
  assume "2 \<le> k"
  then show "probe h (Ref a) k = Inr (Str [c])"
  proof (induction k rule: nat_induct_at_least)
    case base
    from assms show ?case by (simp add: probe_2)
  next
    case (Suc k)
    then show ?case by (simp add: probe_Suc)
  qed
next
  fix k
  have "\<not> nested h j (Str (c # s))" for j
    by (cases j) simp_all
  with assms show "\<not> nested h k (Ref a)"
    by (cases k) simp_all
qed

theorem asarray_string_chain_returns_undefined_witness:
  "store_odd 1 = ArrayObj (Str (CHR ''a'' # []) # [])
   \<and> asarray naming_ctors (Ref 1) store_odd = (Inr Undefined, store_odd)
   \<and> probe store_odd (Ref 1) 4 = Inr (Str ''a'')
   \<and> \<not> nested store_odd 5 (Ref 1)"
proof -
  have e: "store_odd 1 = ArrayObj (Str (CHR ''a'' # []) # [])"
    by (simp add: store_odd_def heap_of_def)
  from asarray_string_chain_returns_undefined [of store_odd 1 "CHR ''a''" "[]" "[]" naming_ctors] e
  show ?thesis by simp
qed

text \<open>
  Claim C10. A bare primitive number is a nested numeric sequence of rank 0, yet
  \<^verbatim>\<open>asarray\<close> of it calls no constructor: \<^verbatim>\<open>data[0]\<close> on a number is \<^verbatim>\<open>undefined\<close>, which
  is not a number, the next probe \<^verbatim>\<open>data[0][0]\<close> indexes \<^verbatim>\<open>undefined\<close> and throws a
  TypeError, and the call ends with it and the store as it was.
\<close>

theorem asarray_number_throws:
  "nested h 0 (Num n)
   \<and> index0 h (Num n) = Inr Undefined
   \<and> typeof (Undefined :: 'n jsval) \<noteq> ''number''
   \<and> member0 h (member0 h (Inr (Num n))) = Inl TypeError
   \<and> asarray cs (Num n) h = (Inl TypeError, h)"
  by (simp add: asarray_def)

theorem asarray_number_throws_witness:
  "index0 store_odd (Num 5) = Inr Undefined
   \<and> asarray naming_ctors (Num 5) store_odd = (Inl TypeError, store_odd)"
  using asarray_number_throws [of store_odd 5 naming_ctors] by simp

section \<open>What indexing signals\<close>

text \<open>
  The statement that indexing a primitive number signals a type error and indexing an
  empty sequence signals an out-of-bounds error does not hold of the host: with
  \<^verbatim>\<open>data = [1]\<close>, \<^verbatim>\<open>data[0]\<close> is the number 1 and \<^verbatim>\<open>data[0][0]\<close> evaluates to
  \<^verbatim>\<open>undefined\<close>; and \<^verbatim>\<open>[][0]\<close> evaluates to \<^verbatim>\<open>undefined\<close> as well. Neither throws.
\<close>

theorem index0_number_or_empty_counterexample:
  "probe store_odd (Ref 2) 1 = Inr (Num 1)
   \<and> probe store_odd (Ref 2) 2 = Inr Undefined
   \<and> store_odd 0 = ArrayObj []
   \<and> index0 store_odd (Ref 0) = Inr Undefined"
  by (simp add: probe_Suc probe_0 probe_2 store_odd_def heap_of_def)

text \<open>
  Claim C7, amended. During probing, a member access \<^verbatim>\<open>v[0]\<close> signals an error, a
  TypeError, exactly when \<^verbatim>\<open>v\<close> is \<^verbatim>\<open>undefined\<close> or \<^verbatim>\<open>null\<close>. Indexing a primitive
  number signals nothing and yields \<^verbatim>\<open>undefined\<close>, and so does indexing an empty
  sequence; in both cases it is the next access of the chain, on that \<^verbatim>\<open>undefined\<close>,
  that signals the TypeError. There is no out-of-bounds error.
\<close>

theorem index0_error_cases:
  "(index0 h v = Inl TypeError \<longleftrightarrow> v = Undefined \<or> v = Null)
   \<and> (typeof v = ''number'' \<longrightarrow>
        index0 h v = Inr Undefined \<and> member0 h (member0 h (Inr v)) = Inl TypeError)
   \<and> (h a = ArrayObj [] \<longrightarrow>
        index0 h (Ref a) = Inr Undefined \<and> member0 h (member0 h (Inr (Ref a))) = Inl TypeError)"
proof (intro conjI impI)
  show "index0 h v = Inl TypeError \<longleftrightarrow> v = Undefined \<or> v = Null"
    by (cases v) (auto split: list.splits jsobj.splits option.splits)
next
  assume "typeof v = ''number''"
  then obtain n where "v = Num n" by (cases v) auto
  then show "index0 h v = Inr Undefined" and "member0 h (member0 h (Inr v)) = Inl TypeError"
    by simp_all
next
  assume "h a = ArrayObj []"
  then show "index0 h (Ref a) = Inr Undefined"
    and "member0 h (member0 h (Inr (Ref a))) = Inl TypeError"
    by simp_all
qed

theorem index0_error_cases_witness:
  "typeof (Num 1 :: int jsval) = ''number''
   \<and> index0 store_odd (Num 1) = Inr Undefined
   \<and> member0 store_odd (member0 store_odd (Inr (Num 1))) = Inl TypeError
   \<and> store_odd 0 = ArrayObj []
   \<and> index0 store_odd (Ref 0) = Inr Undefined
   \<and> member0 store_odd (member0 store_odd (Inr (Ref 0))) = Inl TypeError"
proof -
  have e: "store_odd 0 = ArrayObj []"
    by (simp add: store_odd_def heap_of_def)
  have t: "typeof (Num 1 :: int jsval) = ''number''" by simp
  from index0_error_cases [of store_odd "Num 1" 0] e t show ?thesis by simp
qed

section \<open>The dispatcher leaves the store alone\<close>

text \<open>
  Claim C8. The dispatcher treats its input as read-only. For every argument and every
  store there is one action, the same for all constructors, that the call amounts to:
  the runtime's TypeError or the return of \<^verbatim>\<open>undefined\<close>, both with the store exactly
  as it was (nothing written, nothing allocated), or the call of one of the four
  constructors on the unmodified argument in the unmodified store. The result is a
  function of the argument and the store alone, so nothing is kept from call to call.
\<close>

theorem asarray_frame:
  "\<exists>act. \<forall>cs. asarray cs data h = perform act cs data h"
proof (cases "selected_rank data h")
  case (Some r)
  then have "\<forall>cs. asarray cs data h = perform (Call r) cs data h"
    using selected_rank_Some [of data h r] by (simp add: perform_def)
  then show ?thesis by blast
next
  case None
  from None have nn: "\<not> number_at h data 1" "\<not> number_at h data 2"
    "\<not> number_at h data 3" "\<not> number_at h data 4"
    by (simp_all add: selected_rank_cases split: if_splits)
  show ?thesis
  proof (cases "probe h data 4")
    case (Inl t)
    then have t: "t = TypeError" by (rule probe_throws)
    have "\<forall>cs. asarray cs data h = perform Throw_TypeError cs data h"
      using nn Inl t
      by (auto simp: perform_def asarray_probe number_at_def split: sum.splits dest: probe_throws)
    then show ?thesis by blast
  next
    case (Inr w)
    from not_number_at_below [OF Inr _ nn(1)] not_number_at_below [OF Inr _ nn(2)]
      not_number_at_below [OF Inr _ nn(3)] not_number_at_below [OF Inr _ nn(4)]
    have "\<forall>cs. asarray cs data h = perform Return_undefined cs data h"
      by (auto simp: perform_def asarray_probe)
    then show ?thesis by blast
  qed
qed

theorem asarray_frame_witness:
  "(\<exists>act. \<forall>cs. asarray cs (Ref 0) store_2x2 = perform act cs (Ref 0) store_2x2)
   \<and> asarray naming_ctors (Ref 0) store_2x2 = perform (Call Rank2) naming_ctors (Ref 0) store_2x2
   \<and> asarray naming_ctors (Ref 0) store_odd = perform Throw_TypeError naming_ctors (Ref 0) store_odd
   \<and> asarray naming_ctors (Ref 1) store_odd = perform Return_undefined naming_ctors (Ref 1) store_odd"
  using asarray_frame [of "Ref 0" store_2x2]
  by (simp add: asarray_def perform_def naming_ctors_def store_2x2_def store_odd_def heap_of_def)

end
